theory Spec2Isabelle
  imports Main
begin

section \<open>Python strings\<close>

text \<open>
  A Python \<^verbatim>\<open>str\<close> is a sequence of Unicode code points, modelled as a list of naturals.
  ASCII text is written \<open>py ''...''\<close>; the CJK field names and tokens of
  \<^verbatim>\<open>scripts/issue_to_feishu_ids.py\<close> are given by their code points.

  Whitespace is the set of code points for which \<^verbatim>\<open>str.isspace\<close> holds; \<^verbatim>\<open>str.strip()\<close> and the
  class \<^verbatim>\<open>\s\<close> of \<^verbatim>\<open>re\<close> use the same set.
\<close>

type_synonym pystr = "nat list"

definition py :: "string \<Rightarrow> pystr" where
  "py s = map of_char s"

definition is_space :: "nat \<Rightarrow> bool" where
  "is_space c \<longleftrightarrow>
     (9 \<le> c \<and> c \<le> 13) \<or> (28 \<le> c \<and> c \<le> 32) \<or> c = 133 \<or> c = 160 \<or> c = 5760 \<or>
     (8192 \<le> c \<and> c \<le> 8202) \<or> c = 8232 \<or> c = 8233 \<or> c = 8239 \<or> c = 8287 \<or> c = 12288"

definition str_strip :: "pystr \<Rightarrow> pystr" where
  "str_strip s = rev (dropWhile is_space (rev (dropWhile is_space s)))"

subsection \<open>Case conversion\<close>

text \<open>
  \<^verbatim>\<open>str.upper\<close>, \<^verbatim>\<open>str.lower\<close> and \<^verbatim>\<open>str.capitalize\<close> are built into Python and follow the
  Unicode tables of the interpreter. They are not code of the script, so the functions of
  the script that call them take them as a parameter: a value that holds the three methods. A
  property stated for every such value holds for the methods of any Python.
\<close>

datatype casing =
  Casing (str_upper: "pystr \<Rightarrow> pystr") (str_lower: "pystr \<Rightarrow> pystr")
    (str_capitalize: "pystr \<Rightarrow> pystr")

text \<open>
  What the three methods do on ASCII text: \<^verbatim>\<open>upper\<close> and \<^verbatim>\<open>lower\<close> convert the letters
  \<^verbatim>\<open>a\<close> to \<^verbatim>\<open>z\<close> and \<^verbatim>\<open>A\<close> to \<^verbatim>\<open>Z\<close>, \<^verbatim>\<open>capitalize\<close> upper-cases the first character and
  lower-cases the others. \<open>ascii_exact\<close> says that a casing does this on every ASCII string;
  Python's methods do.
\<close>

definition ascii_upper :: "nat \<Rightarrow> nat" where
  "ascii_upper c = (if 97 \<le> c \<and> c \<le> 122 then c - 32 else c)"

definition ascii_lower :: "nat \<Rightarrow> nat" where
  "ascii_lower c = (if 65 \<le> c \<and> c \<le> 90 then c + 32 else c)"

definition ascii_capitalize :: "pystr \<Rightarrow> pystr" where
  "ascii_capitalize s = (case s of [] \<Rightarrow> [] | c # cs \<Rightarrow> ascii_upper c # map ascii_lower cs)"

definition is_ascii :: "pystr \<Rightarrow> bool" where
  "is_ascii s = list_all (\<lambda>c. c < 128) s"

definition ascii_exact :: "casing \<Rightarrow> bool" where
  "ascii_exact cz \<longleftrightarrow>
     (\<forall>s. is_ascii s \<longrightarrow>
        str_upper cz s = map ascii_upper s \<and>
        str_lower cz s = map ascii_lower s \<and>
        str_capitalize cz s = ascii_capitalize s)"

text \<open>
  The three methods of Python 3 on strings of code points below U+0180 (Basic Latin,
  Latin-1 Supplement and Latin Extended-A), by the full case mappings of each code point:
  \<^verbatim>\<open>upper\<close> and \<^verbatim>\<open>lower\<close> convert every character, \<^verbatim>\<open>capitalize\<close> title-cases the first
  character and lower-cases the others. Some mappings give two characters (U+00DF, U+0130,
  U+0149) or leave the range (U+00B5, U+0149). Code points from U+0180 on are not covered
  by this casing and are left as they are; it is used to evaluate the functions of the
  script at explicit strings below U+0180.
\<close>

definition latin_upper_cp :: "nat \<Rightarrow> pystr" where
  "latin_upper_cp c =
     (if 97 \<le> c \<and> c \<le> 122 then [c - 32]
      else if c = 181 then [924]
      else if c = 223 then [83, 83]
      else if 224 \<le> c \<and> c \<le> 254 \<and> c \<noteq> 247 then [c - 32]
      else if c = 255 then [376]
      else if 256 \<le> c \<and> c \<le> 303 \<and> odd c then [c - 1]
      else if c = 305 then [73]
      else if c = 307 \<or> c = 309 \<or> c = 311 then [c - 1]
      else if 314 \<le> c \<and> c \<le> 328 \<and> even c then [c - 1]
      else if c = 329 then [700, 78]
      else if 331 \<le> c \<and> c \<le> 375 \<and> odd c then [c - 1]
      else if c = 378 \<or> c = 380 \<or> c = 382 then [c - 1]
      else if c = 383 then [83]
      else [c])"

definition latin_lower_cp :: "nat \<Rightarrow> pystr" where
  "latin_lower_cp c =
     (if 65 \<le> c \<and> c \<le> 90 then [c + 32]
      else if 192 \<le> c \<and> c \<le> 222 \<and> c \<noteq> 215 then [c + 32]
      else if 256 \<le> c \<and> c \<le> 302 \<and> even c then [c + 1]
      else if c = 304 then [105, 775]
      else if c = 306 \<or> c = 308 \<or> c = 310 then [c + 1]
      else if 313 \<le> c \<and> c \<le> 327 \<and> odd c then [c + 1]
      else if 330 \<le> c \<and> c \<le> 374 \<and> even c then [c + 1]
      else if c = 376 then [255]
      else if c = 377 \<or> c = 379 \<or> c = 381 then [c + 1]
      else [c])"

definition latin_title_cp :: "nat \<Rightarrow> pystr" where
  "latin_title_cp c = (if c = 223 then [83, 115] else latin_upper_cp c)"

definition latin_casing :: casing where
  "latin_casing =
     Casing
       (\<lambda>s. concat (map latin_upper_cp s))
       (\<lambda>s. concat (map latin_lower_cp s))
       (\<lambda>s. case s of [] \<Rightarrow> [] | c # cs \<Rightarrow> latin_title_cp c @ concat (map latin_lower_cp cs))"

section \<open>Field names and alias tables\<close>

text \<open>The five field names of \<^verbatim>\<open>FN\<close> (lines 19-20), and the fallback title key of line 95.\<close>

definition k_title :: pystr where
  "k_title = [26631, 39064]"

definition k_url :: pystr where
  "k_url = py ''IssueURL''"

definition k_pri :: pystr where
  "k_pri = [20248, 20808, 32423]"

definition k_type :: pystr where
  "k_type = [38656, 27714, 31867, 22411]"

definition k_bug_src :: pystr where
  "k_bug_src = py ''bug'' @ [26469, 28304, 65288, 21487, 36873, 65289]"

definition k_issue_title :: pystr where
  "k_issue_title = py ''Issue'' @ [26631, 39064]"

definition FN :: "pystr list" where
  "FN = [k_title, k_url, k_pri, k_type, k_bug_src]"

text \<open>The three CJK tokens of \<^verbatim>\<open>TYPE_ALIASES\<close> (lines 29-31).\<close>

definition t_defect :: pystr where
  "t_defect = [32570, 38519]"

definition t_new_feature :: pystr where
  "t_new_feature = [26032, 21151, 33021]"

definition t_optimise :: pystr where
  "t_optimise = [20248, 21270]"

definition PRIORITY_ALIASES :: "(pystr \<times> pystr) list" where
  "PRIORITY_ALIASES =
    [(py ''P0'', py ''P0''), (py ''0'', py ''P0''), (py ''HIGH'', py ''P0''), (py ''H'', py ''P0''),
     (py ''P1'', py ''P1''), (py ''1'', py ''P1''), (py ''MEDIUM'', py ''P1''), (py ''M'', py ''P1''),
     (py ''P2'', py ''P2''), (py ''2'', py ''P2''), (py ''LOW'', py ''P2''), (py ''L'', py ''P2''),
     (py ''P3'', py ''P3''), (py ''3'', py ''P3'')]"

definition TYPE_ALIASES :: "(pystr \<times> pystr) list" where
  "TYPE_ALIASES =
    [(py ''bug'', py ''BUG''), (t_defect, py ''BUG''),
     (py ''feature'', py ''Feature''), (t_new_feature, py ''Feature''),
     (py ''enhancement'', py ''Enhancement''), (t_optimise, py ''Enhancement''),
     (py ''improvement'', py ''Enhancement'')]"

section \<open>Alias normalisation\<close>

text \<open>
  \<^verbatim>\<open>dict.get(k, d)\<close> on a table given by its items.
\<close>

definition dict_get :: "('k \<times> 'v) list \<Rightarrow> 'k \<Rightarrow> 'v \<Rightarrow> 'v" where
  "dict_get d k dflt = (case map_of d k of Some v \<Rightarrow> v | None \<Rightarrow> dflt)"

text \<open>
  \<^verbatim>\<open>norm_pri\<close> (lines 54-57) and \<^verbatim>\<open>norm_type\<close> (lines 59-62); \<open>None\<close> is Python's \<^verbatim>\<open>None\<close>, and
  \<open>cz\<close> holds the string methods the two functions call.
\<close>

definition norm_pri :: "casing \<Rightarrow> pystr \<Rightarrow> pystr option" where
  "norm_pri cz v =
     (if v = [] then None
      else let s = str_upper cz (str_strip v)
           in Some (dict_get PRIORITY_ALIASES s (str_strip v)))"

definition norm_type :: "casing \<Rightarrow> pystr \<Rightarrow> pystr option" where
  "norm_type cz v =
     (if v = [] then None
      else let s = str_lower cz (str_strip v)
           in Some (dict_get TYPE_ALIASES s (str_capitalize cz (str_strip v))))"

text \<open>
  Normalising the result of a normalisation. Both functions return \<^verbatim>\<open>None\<close> on a falsy
  argument (\<^verbatim>\<open>if not v: return None\<close>), so \<^verbatim>\<open>None\<close> goes to \<^verbatim>\<open>None\<close>.
\<close>

definition renorm :: "(pystr \<Rightarrow> pystr option) \<Rightarrow> pystr option \<Rightarrow> pystr option" where
  "renorm f r = (case r of None \<Rightarrow> None | Some s \<Rightarrow> f s)"

text \<open>
  A string that \<^verbatim>\<open>capitalize\<close> treats as it treats ASCII text: the result is not empty, has no
  surrounding whitespace, lower-cases to what the string lower-cases to, and is left alone
  by a second \<^verbatim>\<open>capitalize\<close>.
\<close>

definition cap_stable :: "casing \<Rightarrow> pystr \<Rightarrow> bool" where
  "cap_stable cz t \<longleftrightarrow>
     str_capitalize cz t \<noteq> [] \<and>
     str_strip (str_capitalize cz t) = str_capitalize cz t \<and>
     str_lower cz (str_capitalize cz t) = str_lower cz t \<and>
     str_capitalize cz (str_capitalize cz t) = str_capitalize cz t"

section \<open>Markdown section extractor\<close>

text \<open>
  \<^verbatim>\<open>parse_md\<close> (lines 44-52) scans the document with \<^verbatim>\<open>re.finditer\<close> and the pattern

  \<^verbatim>\<open>(^|\n)#{2,3}\s*([^\n#]+?)\s*\n([\s\S]*?)(?=\n#{2,3}\s|$)\<close>

  compiled without flags. The matcher below follows the backtracking order of \<^verbatim>\<open>re\<close>: a
  greedy repetition tries the longest run first, a lazy one the shortest, an alternation
  its left branch first. Each repetition takes the rest of the pattern as a continuation
  \<open>k\<close> and gives way when \<open>k\<close> fails.
\<close>

definition NL :: nat where
  "NL = 10"

definition HASH :: nat where
  "HASH = 35"

text \<open>\<^verbatim>\<open>\s*\<close>, greedy.\<close>

fun greedy_ws :: "pystr \<Rightarrow> (pystr \<Rightarrow> 'a option) \<Rightarrow> 'a option" where
  "greedy_ws [] k = k []"
| "greedy_ws (c # cs) k =
     (if is_space c
      then (case greedy_ws cs k of Some r \<Rightarrow> Some r | None \<Rightarrow> k (c # cs))
      else k (c # cs))"

text \<open>\<^verbatim>\<open>([^\n#]+?)\<close>, lazy, at least one character; \<open>acc\<close> is the text of group 2 so far.\<close>

fun lazy_heading :: "pystr \<Rightarrow> pystr \<Rightarrow> (pystr \<Rightarrow> pystr \<Rightarrow> 'a option) \<Rightarrow> 'a option" where
  "lazy_heading acc [] k = None"
| "lazy_heading acc (c # cs) k =
     (if c = NL \<or> c = HASH then None
      else (case k (acc @ [c]) cs of
              Some r \<Rightarrow> Some r
            | None \<Rightarrow> lazy_heading (acc @ [c]) cs k))"

text \<open>
  \<^verbatim>\<open>(?=\n#{2,3}\s|$)\<close>. Without \<^verbatim>\<open>re.MULTILINE\<close>, \<^verbatim>\<open>$\<close> holds at the end of the string and just
  before a newline that ends the string.
\<close>

definition lookahead :: "pystr \<Rightarrow> bool" where
  "lookahead s \<longleftrightarrow>
     (case s of
        n # h1 # h2 # c # cs \<Rightarrow>
          n = NL \<and> h1 = HASH \<and> h2 = HASH \<and>
          ((c = HASH \<and> (case cs of d # _ \<Rightarrow> is_space d | [] \<Rightarrow> False)) \<or> is_space c)
      | _ \<Rightarrow> False)
     \<or> s = [] \<or> s = [NL]"

text \<open>
  \<^verbatim>\<open>([\s\S]*?)\<close> followed by the lookahead: the shortest text after which the lookahead
  holds. The result is group 3 and the input left after the match.
\<close>

fun lazy_body :: "pystr \<Rightarrow> pystr \<Rightarrow> pystr \<times> pystr" where
  "lazy_body acc [] = (acc, [])"
| "lazy_body acc (c # cs) =
     (if lookahead (c # cs) then (acc, c # cs) else lazy_body (acc @ [c]) cs)"

text \<open>\<^verbatim>\<open>#{2,3}\<close>, greedy: three marks first, then two.\<close>

definition hashes :: "pystr \<Rightarrow> (pystr \<Rightarrow> 'a option) \<Rightarrow> 'a option" where
  "hashes s k =
     (case s of
        h1 # h2 # r \<Rightarrow>
          if h1 = HASH \<and> h2 = HASH then
            (case (case r of h3 # r' \<Rightarrow> if h3 = HASH then k r' else None | [] \<Rightarrow> None) of
               Some x \<Rightarrow> Some x
             | None \<Rightarrow> k r)
          else None
      | _ \<Rightarrow> None)"

text \<open>
  The pattern after group 1. A match gives group 2, group 3 and the input after the match.
\<close>

definition after_anchor :: "pystr \<Rightarrow> (pystr \<times> pystr \<times> pystr) option" where
  "after_anchor s =
     hashes s (\<lambda>r0.
       greedy_ws r0 (\<lambda>r1.
         lazy_heading [] r1 (\<lambda>g2 r2.
           greedy_ws r2 (\<lambda>r3.
             (case r3 of
                c # r4 \<Rightarrow>
                  if c = NL
                  then (case lazy_body [] r4 of (g3, rest) \<Rightarrow> Some (g2, g3, rest))
                  else None
              | [] \<Rightarrow> None)))))"

text \<open>
  A match attempt at one position; \<open>bos\<close> tells whether the position is the beginning of
  the document, where \<^verbatim>\<open>^\<close> holds. Group 1 is \<^verbatim>\<open>^\<close> or, failing that, one newline.
\<close>

definition match_at :: "bool \<Rightarrow> pystr \<Rightarrow> (pystr \<times> pystr \<times> pystr) option" where
  "match_at bos s =
     (case (if bos then after_anchor s else None) of
        Some m \<Rightarrow> Some m
      | None \<Rightarrow>
          (case s of c # cs \<Rightarrow> if c = NL then after_anchor cs else None | [] \<Rightarrow> None))"

lemma greedy_ws_len:
  "greedy_ws s k = Some x \<Longrightarrow> \<exists>r. k r = Some x \<and> length r \<le> length s"
proof (induction s)
  case Nil
  then show ?case by auto
next
  case (Cons c cs)
  then show ?case by (fastforce split: if_splits option.splits)
qed

lemma lazy_heading_len:
  "lazy_heading acc s k = Some x \<Longrightarrow> \<exists>a r. k a r = Some x \<and> length r < length s"
proof (induction s arbitrary: acc)
  case Nil
  then show ?case by auto
next
  case (Cons c cs)
  then show ?case by (fastforce split: if_splits option.splits)
qed

lemma lazy_body_len: "lazy_body acc s = (g, r) \<Longrightarrow> length r \<le> length s"
  by (induction s arbitrary: acc) (auto split: if_splits, fastforce)

lemma hashes_len: "hashes s k = Some x \<Longrightarrow> \<exists>r. k r = Some x \<and> length r < length s"
  by (auto simp: hashes_def split: list.splits if_splits option.splits)

lemma after_anchor_len:
  assumes "after_anchor s = Some (g2, g3, rest)"
  shows "length rest < length s"
proof -
  let ?tail = "\<lambda>g r3. (case r3 of
                  c # r4 \<Rightarrow>
                    if c = NL
                    then (case lazy_body [] r4 of (g3, rest) \<Rightarrow> Some (g, g3, rest))
                    else None
                | [] \<Rightarrow> None)"
  from assms obtain r0 where r0: "length r0 < length s"
    and a: "greedy_ws r0 (\<lambda>r1. lazy_heading [] r1 (\<lambda>g r2. greedy_ws r2 (?tail g)))
            = Some (g2, g3, rest)"
    unfolding after_anchor_def by (blast dest: hashes_len)
  from a obtain r1 where r1: "length r1 \<le> length r0"
    and b: "lazy_heading [] r1 (\<lambda>g r2. greedy_ws r2 (?tail g)) = Some (g2, g3, rest)"
    by (blast dest: greedy_ws_len)
  from b obtain g r2 where r2: "length r2 < length r1"
    and c: "greedy_ws r2 (?tail g) = Some (g2, g3, rest)"
    by (blast dest: lazy_heading_len)
  from c obtain r3 where r3: "length r3 \<le> length r2"
    and d: "?tail g r3 = Some (g2, g3, rest)"
    by (blast dest: greedy_ws_len)
  from d have "length rest \<le> length r3"
    by (auto split: list.splits if_splits prod.splits dest: lazy_body_len)
  with r0 r1 r2 r3 show ?thesis by simp
qed

lemma match_at_len: "match_at bos s = Some (g2, g3, rest) \<Longrightarrow> length rest < length s"
  by (auto simp: match_at_def split: option.splits if_splits list.splits
           dest: after_anchor_len)

text \<open>
  \<^verbatim>\<open>pat.finditer(md)\<close>: the matches from left to right, each search starting where the last
  match ended (a match of this pattern is never empty). Each match is given by its groups
  2 and 3.
\<close>

function finditer :: "bool \<Rightarrow> pystr \<Rightarrow> (pystr \<times> pystr) list" where
  "finditer bos s =
     (case match_at bos s of
        Some (g2, g3, rest) \<Rightarrow> (g2, g3) # finditer False rest
      | None \<Rightarrow> (case s of [] \<Rightarrow> [] | c # cs \<Rightarrow> finditer False cs))"
  by pat_completeness auto
termination
  by (relation "measure (\<lambda>(bos, s). length s)") (auto dest: match_at_len)

declare finditer.simps [simp del]

text \<open>The body of the loop (lines 49-51): one match stored into \<^verbatim>\<open>out\<close>.\<close>

definition store_match :: "pystr \<times> pystr \<Rightarrow> (pystr \<rightharpoonup> pystr) \<Rightarrow> (pystr \<rightharpoonup> pystr)" where
  "store_match m out =
     (let k = str_strip (fst m); v = str_strip (snd m)
      in if k \<noteq> [] then out(k \<mapsto> v) else out)"

definition parse_md :: "pystr \<Rightarrow> (pystr \<rightharpoonup> pystr)" where
  "parse_md md =
     (if md = [] then Map.empty
      else fold store_match (finditer True md) Map.empty)"


subsection \<open>Documents made of sections\<close>









section \<open>JSON values and Python errors\<close>

text \<open>
  The values \<^verbatim>\<open>json.load\<close> and \<^verbatim>\<open>r.json()\<close> produce: \<^verbatim>\<open>None\<close>, booleans, integers,
  strings, lists and dicts (a dict is given by its items). Numbers with a fraction are
  left out; nothing below depends on them.
\<close>

datatype json =
    JNull
  | JBool bool
  | JInt int
  | JStr pystr
  | JArr "json list"
  | JObj "(pystr \<times> json) list"

datatype error =
    ValueError
  | RuntimeError
  | AttributeError
  | TypeError
  | KeyError
  | IndexError
  | RequestException
  | JSONDecodeError

text \<open>Truth value of a Python object, as \<^verbatim>\<open>if x\<close>, \<^verbatim>\<open>not x\<close> and \<^verbatim>\<open>x or y\<close> take it.\<close>

fun truthy :: "json \<Rightarrow> bool" where
  "truthy JNull = False"
| "truthy (JBool b) = b"
| "truthy (JInt n) = (n \<noteq> 0)"
| "truthy (JStr s) = (s \<noteq> [])"
| "truthy (JArr xs) = (xs \<noteq> [])"
| "truthy (JObj kvs) = (kvs \<noteq> [])"

definition py_or :: "json \<Rightarrow> json \<Rightarrow> json" where
  "py_or a b = (if truthy a then a else b)"

text \<open>
  \<^verbatim>\<open>x.get\<close> exists on a dict only; on any other value the attribute lookup raises
  \<^verbatim>\<open>AttributeError\<close>. \<open>dget d k\<close> is \<^verbatim>\<open>d.get(k)\<close> on the items of a dict.
\<close>

fun as_dict :: "json \<Rightarrow> error + (pystr \<times> json) list" where
  "as_dict (JObj kvs) = Inr kvs"
| "as_dict _ = Inl AttributeError"

definition dget :: "(pystr \<times> json) list \<Rightarrow> pystr \<Rightarrow> json" where
  "dget d k = (case map_of d k of Some v \<Rightarrow> v | None \<Rightarrow> JNull)"

text \<open>\<^verbatim>\<open>x[0]\<close> and \<^verbatim>\<open>x["record_id"]\<close>, as line 116 uses them.\<close>

fun index0 :: "json \<Rightarrow> error + json" where
  "index0 (JArr (x # xs)) = Inr x"
| "index0 (JArr []) = Inl IndexError"
| "index0 (JStr (c # cs)) = Inr (JStr [c])"
| "index0 (JStr []) = Inl IndexError"
| "index0 (JObj kvs) = Inl KeyError"
| "index0 _ = Inl TypeError"

fun index_str :: "json \<Rightarrow> pystr \<Rightarrow> error + json" where
  "index_str (JObj kvs) k = (case map_of kvs k of Some v \<Rightarrow> Inr v | None \<Rightarrow> Inl KeyError)"
| "index_str _ k = Inl TypeError"

section \<open>Field builder\<close>

type_synonym fields = "pystr \<rightharpoonup> json"

text \<open>\<^verbatim>\<open>d.get(k, "")\<close> on a dict of strings.\<close>

definition sget :: "(pystr \<rightharpoonup> pystr) \<Rightarrow> pystr \<Rightarrow> pystr" where
  "sget d k = (case d k of Some v \<Rightarrow> v | None \<Rightarrow> [])"

text \<open>\<^verbatim>\<open>if x: fields[k]=x\<close> for a value that is a string or \<^verbatim>\<open>None\<close>.\<close>

definition put_if :: "pystr \<Rightarrow> pystr option \<Rightarrow> fields \<Rightarrow> fields" where
  "put_if k x f = (case x of Some s \<Rightarrow> if s \<noteq> [] then f(k \<mapsto> JStr s) else f | None \<Rightarrow> f)"

text \<open>\<^verbatim>\<open>{k:v for k,v in fields.items() if k in FN}\<close> (lines 89 and 108).\<close>

definition keep_FN :: "fields \<Rightarrow> fields" where
  "keep_FN f = (\<lambda>k. if k \<in> set FN then f k else None)"

text \<open>
  \<^verbatim>\<open>build_from_issue\<close> (lines 64-90). The event is whatever \<^verbatim>\<open>json.load\<close> gave. The calls
  of \<^verbatim>\<open>.get\<close> on \<^verbatim>\<open>evt\<close> and on \<^verbatim>\<open>issue\<close> raise when the value is not a dict, and
  \<^verbatim>\<open>pat.finditer\<close> raises \<^verbatim>\<open>TypeError\<close> on a body that is truthy and not a string.
\<close>

definition build_from_issue :: "casing \<Rightarrow> json \<Rightarrow> error + fields" where
  "build_from_issue cz evt =
     (case as_dict (py_or evt (JObj [])) of
        Inl e \<Rightarrow> Inl e
      | Inr evt_d \<Rightarrow>
     (case as_dict (py_or (dget evt_d (py ''issue'')) (JObj [])) of
        Inl e \<Rightarrow> Inl e
      | Inr issue \<Rightarrow>
     (case py_or (dget issue (py ''body'')) (JStr []) of
        JStr body \<Rightarrow>
          let md = parse_md body;
              title_md = str_strip (sget md k_title);
              f1 = Map.empty(k_title \<mapsto>
                     (if title_md \<noteq> [] then JStr title_md
                      else py_or (dget issue (py ''title'')) (JStr [])));
              f2 = (if truthy (dget issue (py ''html_url''))
                    then f1(k_url \<mapsto> dget issue (py ''html_url'')) else f1);
              f3 = put_if k_pri (norm_pri cz (sget md k_pri)) f2;
              f4 = put_if k_type (norm_type cz (sget md k_type)) f3;
              f5 = put_if k_bug_src (Some (str_strip (sget md k_bug_src))) f4
          in Inr (keep_FN f5)
      | _ \<Rightarrow> Inl TypeError)))"

text \<open>
  \<^verbatim>\<open>build_from_inputs\<close> (lines 92-109). The inputs come from \<^verbatim>\<open>os.environ\<close>, so every value
  is a string.
\<close>

definition build_from_inputs :: "casing \<Rightarrow> (pystr \<rightharpoonup> pystr) \<Rightarrow> pystr \<Rightarrow> fields" where
  "build_from_inputs cz inputs issue_url =
     (let t1 = str_strip (sget inputs k_title);
          f1 = Map.empty(k_title \<mapsto>
                 JStr (if t1 \<noteq> [] then t1 else str_strip (sget inputs k_issue_title)));
          f2 = f1(k_url \<mapsto> JStr (str_strip issue_url));
          f3 = put_if k_pri (norm_pri cz (sget inputs k_pri)) f2;
          f4 = put_if k_type (norm_type cz (sget inputs k_type)) f3;
          f5 = put_if k_bug_src (Some (str_strip (sget inputs k_bug_src))) f4
      in keep_FN f5)"

section \<open>Record locator and upsert executor\<close>

text \<open>
  The three remote calls of the script, each with the values that go into its URL,
  parameters and payload: token, app token, table id, then the key to search for, or the
  record id and the fields, or the fields.
\<close>

datatype request =
    GetSearch pystr pystr pystr json
  | PatchRecord pystr pystr pystr json fields
  | PostRecord pystr pystr pystr fields

text \<open>
  What a call of \<^verbatim>\<open>requests\<close> gives: an exception (timeout, connection failure), or a
  response whose body \<^verbatim>\<open>r.json()\<close> parses (\<open>Some\<close>) or rejects (\<open>None\<close>). The remote store
  is a function from requests to responses; a run is described by the list of requests it
  issued, in order, and its outcome.
\<close>

datatype response =
    Failed
  | Replied "json option"

type_synonym remote = "request \<Rightarrow> response"

fun is_patch :: "request \<Rightarrow> bool" where
  "is_patch (PatchRecord t a tb r f) = True"
| "is_patch _ = False"

fun is_post :: "request \<Rightarrow> bool" where
  "is_post (PostRecord t a tb f) = True"
| "is_post _ = False"

fun is_search :: "request \<Rightarrow> bool" where
  "is_search (GetSearch t a tb u) = True"
| "is_search _ = False"

text \<open>
  \<^verbatim>\<open>search_record\<close> (lines 110-117). \<open>JNull\<close> is the \<^verbatim>\<open>None\<close> of line 117; line 116 returns
  whatever value the first item holds under \<^verbatim>\<open>record_id\<close>.
\<close>

definition search_record ::
  "remote \<Rightarrow> pystr \<Rightarrow> pystr \<Rightarrow> pystr \<Rightarrow> json \<Rightarrow> request list \<times> (error + json)" where
  "search_record remote token app_token table_id issue_url =
     (let req = GetSearch token app_token table_id issue_url
      in ([req],
          (case remote req of
             Failed \<Rightarrow> Inl RequestException
           | Replied None \<Rightarrow> Inl JSONDecodeError
           | Replied (Some data) \<Rightarrow>
               (case as_dict data of
                  Inl e \<Rightarrow> Inl e
                | Inr d \<Rightarrow>
               (case as_dict (py_or (dget d (py ''data'')) (JObj [])) of
                  Inl e \<Rightarrow> Inl e
                | Inr dd \<Rightarrow>
                    let items = py_or (dget dd (py ''items'')) (JArr [])
                    in if truthy items
                       then (case index0 items of
                               Inl e \<Rightarrow> Inl e
                             | Inr item \<Rightarrow> index_str item (py ''record_id''))
                       else Inr JNull)))))"

text \<open>\<^verbatim>\<open>x in (0, None)\<close> (line 139); in Python \<^verbatim>\<open>False == 0\<close> holds.\<close>

fun in_0_None :: "json \<Rightarrow> bool" where
  "in_0_None JNull = True"
| "in_0_None (JInt n) = (n = 0)"
| "in_0_None (JBool b) = (\<not> b)"
| "in_0_None _ = False"

text \<open>\<^verbatim>\<open>upsert\<close> (lines 119-141).\<close>

definition upsert ::
  "remote \<Rightarrow> pystr \<Rightarrow> pystr \<Rightarrow> pystr \<Rightarrow> fields \<Rightarrow> request list \<times> (error + json)" where
  "upsert remote token app_token table_id fields =
     (let iu = (case fields k_url of Some v \<Rightarrow> v | None \<Rightarrow> JNull)
      in if \<not> truthy iu then ([], Inl ValueError)
         else
           (case search_record remote token app_token table_id iu of
              (tr, Inl e) \<Rightarrow> (tr, Inl e)
            | (tr, Inr rec_id) \<Rightarrow>
                let req = (if truthy rec_id
                           then PatchRecord token app_token table_id rec_id fields
                           else PostRecord token app_token table_id fields)
                in (tr @ [req],
                    (case remote req of
                       Failed \<Rightarrow> Inl RequestException
                     | Replied None \<Rightarrow> Inl RuntimeError
                     | Replied (Some data) \<Rightarrow>
                         (case as_dict data of
                            Inl e \<Rightarrow> Inl e
                          | Inr d \<Rightarrow>
                              if \<not> in_0_None (dget d (py ''code''))
                              then Inl RuntimeError
                              else Inr data)))))"

section \<open>Example data\<close>






text \<open>
  The issue event with the three-section body
  \<^verbatim>\<open>## <title>\nLogin crash\n## <priority>\nP1\n## <type>\nbug\n\<close> and the field set built
  from it, and a flat input map.
\<close>

definition body1 :: pystr where
  "body1 = py ''## '' @ k_title @ py ''\<newline>Login crash\<newline>## '' @ k_pri
           @ py ''\<newline>P1\<newline>## '' @ k_type @ py ''\<newline>bug\<newline>''"

definition evt1 :: json where
  "evt1 = JObj [(py ''issue'',
            JObj [(py ''body'', JStr body1),
                  (py ''title'', JStr (py ''Fallback Title'')),
                  (py ''html_url'', JStr (py ''https://x/1''))])]"

definition out1 :: fields where
  "out1 = [k_title \<mapsto> JStr (py ''Login crash''), k_url \<mapsto> JStr (py ''https://x/1''),
           k_pri \<mapsto> JStr (py ''P1''), k_type \<mapsto> JStr (py ''BUG'')]"

definition inputs1 :: "pystr \<rightharpoonup> pystr" where
  "inputs1 = [k_title \<mapsto> py ''Login crash'', k_pri \<mapsto> py ''P1'', k_type \<mapsto> py ''BUG'',
              k_bug_src \<mapsto> py ''QA'']"

text \<open>The word \<^verbatim>\<open>improvement\<close> with U+0131, the dotless i, for its first letter.\<close>

definition dotless_improvement :: pystr where
  "dotless_improvement = 305 # py ''mprovement''"

text \<open>
  A field set with its key, and three remote stores. All three answer a write with status
  code 0. A search finds one record in the first, none in the second, and is refused with
  a non-zero status code by the third.
\<close>

definition rec1 :: json where
  "rec1 = JStr (py ''recA1'')"

definition url1 :: json where
  "url1 = JStr (py ''https://x/1'')"

definition fields1 :: fields where
  "fields1 = [k_title \<mapsto> JStr (py ''Login crash''), k_url \<mapsto> url1]"

definition ok_reply :: response where
  "ok_reply = Replied (Some (JObj [(py ''code'', JInt 0)]))"

definition remote_found :: remote where
  "remote_found req =
     (if is_search req
      then Replied (Some (JObj [(py ''code'', JInt 0),
             (py ''data'', JObj [(py ''items'', JArr [JObj [(py ''record_id'', rec1)]])])]))
      else ok_reply)"

definition remote_empty :: remote where
  "remote_empty req =
     (if is_search req
      then Replied (Some (JObj [(py ''code'', JInt 0),
             (py ''data'', JObj [(py ''items'', JArr [])])]))
      else ok_reply)"

definition remote_denied :: remote where
  "remote_denied req =
     (if is_search req
      then Replied (Some (JObj [(py ''code'', JInt 1254302),
             (py ''msg'', JStr (py ''no permission''))]))
      else ok_reply)"

section \<open>Facts about strings and keys\<close>

lemmas str_defs = py_def is_space_def str_strip_def dict_get_def PRIORITY_ALIASES_def
  TYPE_ALIASES_def t_defect_def t_new_feature_def t_optimise_def is_ascii_def
  latin_casing_def latin_upper_cp_def latin_lower_cp_def latin_title_cp_def

lemmas key_defs = k_title_def k_url_def k_pri_def k_type_def k_bug_src_def k_issue_title_def
  FN_def

lemmas re_defs = NL_def HASH_def lookahead_def hashes_def after_anchor_def match_at_def
  finditer.simps

text \<open>A string is a fixed point of \<open>str_strip\<close> when it neither starts nor ends with whitespace.\<close>

lemma strip_fix:
  assumes "s = [] \<or> (\<not> is_space (hd s) \<and> \<not> is_space (last s))"
  shows "str_strip s = s"
proof (cases "s = []")
  case True
  then show ?thesis by (simp add: str_strip_def)
next
  case False
  with assms have h: "\<not> is_space (hd s)" and l: "\<not> is_space (last s)" by auto
  from False h have a: "dropWhile is_space s = s" by (cases s) auto
  from False l have b: "dropWhile is_space (rev s) = rev s"
    by (cases "rev s") (auto simp: last_rev hd_rev)
  show ?thesis by (simp add: str_strip_def a b)
qed

lemma strip_shape:
  "str_strip s = [] \<or> (\<not> is_space (hd (str_strip s)) \<and> \<not> is_space (last (str_strip s)))"
proof (cases "str_strip s = []")
  case True
  then show ?thesis by simp
next
  case False
  define t where "t = dropWhile is_space s"
  define r where "r = dropWhile is_space (rev t)"
  have u: "str_strip s = rev r" by (simp add: str_strip_def t_def r_def)
  with False have rne: "r \<noteq> []" by simp
  then have l: "\<not> is_space (hd r)" unfolding r_def by (metis hd_dropWhile)
  obtain w where w: "rev t = w @ r" unfolding r_def by (metis takeWhile_dropWhile_id)
  then have t: "t = rev r @ rev w" by (metis rev_append rev_rev_ident)
  from rne t have tne: "t \<noteq> []" by simp
  then have "\<not> is_space (hd t)" unfolding t_def by (metis hd_dropWhile)
  with t rne have h: "\<not> is_space (hd (rev r))" by (simp add: hd_append)
  from l rne have "\<not> is_space (last (rev r))" by (simp add: last_rev)
  with h u show ?thesis by simp
qed

lemma strip_idem: "str_strip (str_strip s) = str_strip s"
  using strip_shape strip_fix by blast

lemma strip_Nil: "str_strip [] = []"
  by (simp add: str_strip_def)



lemma set_strip: "set (str_strip s) \<subseteq> set s"
proof -
  have "set (str_strip s) = set (dropWhile is_space (rev (dropWhile is_space s)))"
    by (simp add: str_strip_def)
  also have "\<dots> \<subseteq> set (rev (dropWhile is_space s))" by (rule set_dropWhileD[THEN subsetI])
  also have "\<dots> \<subseteq> set s" by (auto dest: set_dropWhileD)
  finally show ?thesis .
qed

lemma is_ascii_strip: "is_ascii v \<Longrightarrow> is_ascii (str_strip v)"
  using set_strip[of v] by (auto simp: is_ascii_def list_all_iff)

text \<open>The ASCII conversions.\<close>

lemma is_space_ascii_upper: "is_space (ascii_upper c) = is_space c"
  by (auto simp: is_space_def ascii_upper_def)

lemma is_space_ascii_lower: "is_space (ascii_lower c) = is_space c"
  by (auto simp: is_space_def ascii_lower_def)

lemma lower_upper_ascii: "ascii_lower (ascii_upper c) = ascii_lower c"
  by (auto simp: ascii_lower_def ascii_upper_def)

lemma lower_lower_ascii: "ascii_lower (ascii_lower c) = ascii_lower c"
  by (auto simp: ascii_lower_def)

lemma upper_upper_ascii: "ascii_upper (ascii_upper c) = ascii_upper c"
  by (auto simp: ascii_upper_def)

lemma ascii_upper_lt: "c < 128 \<Longrightarrow> ascii_upper c < 128"
  by (auto simp: ascii_upper_def)

lemma ascii_lower_lt: "c < 128 \<Longrightarrow> ascii_lower c < 128"
  by (auto simp: ascii_lower_def)

lemma is_ascii_capitalize: "is_ascii t \<Longrightarrow> is_ascii (ascii_capitalize t)"
  by (cases t) (auto simp: is_ascii_def ascii_capitalize_def list_all_iff ascii_upper_lt
      ascii_lower_lt)

lemma ascii_exactD:
  assumes "ascii_exact cz" and "is_ascii s"
  shows "str_upper cz s = map ascii_upper s"
    and "str_lower cz s = map ascii_lower s"
    and "str_capitalize cz s = ascii_capitalize s"
  using assms by (simp_all add: ascii_exact_def)

text \<open>The casing for code points below U+0180 does on ASCII text what Python does.\<close>

lemma latin_ascii_cp:
  assumes "c < 128"
  shows "latin_upper_cp c = [ascii_upper c]"
    and "latin_lower_cp c = [ascii_lower c]"
    and "latin_title_cp c = [ascii_upper c]"
  using assms
  by (simp_all add: latin_upper_cp_def latin_lower_cp_def latin_title_cp_def ascii_upper_def
      ascii_lower_def)

lemma latin_ascii_map:
  assumes "is_ascii s"
  shows "concat (map latin_upper_cp s) = map ascii_upper s"
    and "concat (map latin_lower_cp s) = map ascii_lower s"
  using assms by (induction s) (simp_all add: is_ascii_def latin_ascii_cp)

lemma ascii_exact_latin: "ascii_exact latin_casing"
  unfolding ascii_exact_def
proof (intro allI impI conjI)
  fix s
  assume a: "is_ascii s"
  show "str_upper latin_casing s = map ascii_upper s"
    using a by (simp add: latin_casing_def latin_ascii_map)
  show "str_lower latin_casing s = map ascii_lower s"
    using a by (simp add: latin_casing_def latin_ascii_map)
  show "str_capitalize latin_casing s = ascii_capitalize s"
  proof (cases s)
    case Nil
    then show ?thesis by (simp add: latin_casing_def ascii_capitalize_def)
  next
    case (Cons c cs)
    with a have "c < 128" "is_ascii cs" by (simp_all add: is_ascii_def)
    with Cons show ?thesis
      by (simp add: latin_casing_def ascii_capitalize_def latin_ascii_cp latin_ascii_map)
  qed
qed

lemma keys_distinct: "distinct [k_title, k_url, k_pri, k_type, k_bug_src, k_issue_title]"
  by (simp add: key_defs py_def)

lemma title_in_FN: "k_title \<in> set FN"
  by (simp add: FN_def)

lemma optional_in_FN:
  "k \<in> {k_pri, k_type, k_bug_src} \<Longrightarrow> k \<in> set FN \<and> k \<noteq> k_title \<and> k \<noteq> k_url"
  using keys_distinct by (auto simp: FN_def)

section \<open>Facts about the normalisers\<close>

lemma norm_pri_Nil: "norm_pri cz [] = None"
  by (simp add: norm_pri_def)

lemma norm_type_Nil: "norm_type cz [] = None"
  by (simp add: norm_type_def)

lemma pri_range:
  "map_of PRIORITY_ALIASES k = Some c \<Longrightarrow> c \<in> {py ''P0'', py ''P1'', py ''P2'', py ''P3''}"
  by (auto simp: PRIORITY_ALIASES_def split: if_splits)

lemma type_range:
  "map_of TYPE_ALIASES k = Some c \<Longrightarrow> c \<in> {py ''BUG'', py ''Feature'', py ''Enhancement''}"
  by (auto simp: TYPE_ALIASES_def split: if_splits)

text \<open>The canonical values are fixed points, by what the methods do on ASCII text.\<close>

lemma pri_canon:
  assumes "ascii_exact cz"
  shows "norm_pri cz (py ''P0'') = Some (py ''P0'')" "norm_pri cz (py ''P1'') = Some (py ''P1'')"
    "norm_pri cz (py ''P2'') = Some (py ''P2'')" "norm_pri cz (py ''P3'') = Some (py ''P3'')"
proof -
  have s: "str_strip (py ''P0'') = py ''P0''" "str_strip (py ''P1'') = py ''P1''"
    "str_strip (py ''P2'') = py ''P2''" "str_strip (py ''P3'') = py ''P3''"
    by (simp_all add: py_def str_strip_def is_space_def)
  have u: "str_upper cz (py ''P0'') = py ''P0''" "str_upper cz (py ''P1'') = py ''P1''"
    "str_upper cz (py ''P2'') = py ''P2''" "str_upper cz (py ''P3'') = py ''P3''"
    by (simp_all add: ascii_exactD(1)[OF assms] is_ascii_def py_def ascii_upper_def)
  have n: "py ''P0'' \<noteq> []" "py ''P1'' \<noteq> []" "py ''P2'' \<noteq> []" "py ''P3'' \<noteq> []"
    by (simp_all add: py_def)
  show "norm_pri cz (py ''P0'') = Some (py ''P0'')"
    by (simp add: norm_pri_def s u n) (simp add: dict_get_def PRIORITY_ALIASES_def py_def)
  show "norm_pri cz (py ''P1'') = Some (py ''P1'')"
    by (simp add: norm_pri_def s u n) (simp add: dict_get_def PRIORITY_ALIASES_def py_def)
  show "norm_pri cz (py ''P2'') = Some (py ''P2'')"
    by (simp add: norm_pri_def s u n) (simp add: dict_get_def PRIORITY_ALIASES_def py_def)
  show "norm_pri cz (py ''P3'') = Some (py ''P3'')"
    by (simp add: norm_pri_def s u n) (simp add: dict_get_def PRIORITY_ALIASES_def py_def)
qed

lemma type_canon:
  assumes "ascii_exact cz"
  shows "norm_type cz (py ''BUG'') = Some (py ''BUG'')"
    "norm_type cz (py ''Feature'') = Some (py ''Feature'')"
    "norm_type cz (py ''Enhancement'') = Some (py ''Enhancement'')"
proof -
  have s: "str_strip (py ''BUG'') = py ''BUG''" "str_strip (py ''Feature'') = py ''Feature''"
    "str_strip (py ''Enhancement'') = py ''Enhancement''"
    by (simp_all add: py_def str_strip_def is_space_def)
  have l: "str_lower cz (py ''BUG'') = py ''bug''"
    "str_lower cz (py ''Feature'') = py ''feature''"
    "str_lower cz (py ''Enhancement'') = py ''enhancement''"
    by (simp_all add: ascii_exactD(2)[OF assms] is_ascii_def py_def ascii_lower_def)
  have n: "py ''BUG'' \<noteq> []" "py ''Feature'' \<noteq> []" "py ''Enhancement'' \<noteq> []"
    by (simp_all add: py_def)
  show "norm_type cz (py ''BUG'') = Some (py ''BUG'')"
    by (simp add: norm_type_def s l n)
       (simp add: dict_get_def TYPE_ALIASES_def py_def t_defect_def t_new_feature_def
         t_optimise_def)
  show "norm_type cz (py ''Feature'') = Some (py ''Feature'')"
    by (simp add: norm_type_def s l n)
       (simp add: dict_get_def TYPE_ALIASES_def py_def t_defect_def t_new_feature_def
         t_optimise_def)
  show "norm_type cz (py ''Enhancement'') = Some (py ''Enhancement'')"
    by (simp add: norm_type_def s l n)
       (simp add: dict_get_def TYPE_ALIASES_def py_def t_defect_def t_new_feature_def
         t_optimise_def)
qed

lemma norm_pri_idem:
  assumes "ascii_exact cz" and "str_strip v \<noteq> []"
  shows "renorm (norm_pri cz) (norm_pri cz v) = norm_pri cz v"
proof -
  from assms(2) have vne: "v \<noteq> []" by (auto simp: str_strip_def)
  show ?thesis
  proof (cases "map_of PRIORITY_ALIASES (str_upper cz (str_strip v))")
    case None
    then have r: "norm_pri cz v = Some (str_strip v)"
      using vne by (simp add: norm_pri_def dict_get_def)
    from None assms(2) have "norm_pri cz (str_strip v) = Some (str_strip v)"
      by (simp add: norm_pri_def dict_get_def strip_idem)
    with r show ?thesis by (simp add: renorm_def)
  next
    case (Some c)
    then have r: "norm_pri cz v = Some c" using vne by (simp add: norm_pri_def dict_get_def)
    from Some have "c \<in> {py ''P0'', py ''P1'', py ''P2'', py ''P3''}" by (rule pri_range)
    then have "norm_pri cz c = Some c" using pri_canon[OF assms(1)] by auto
    with r show ?thesis by (simp add: renorm_def)
  qed
qed

text \<open>ASCII text is stable under \<^verbatim>\<open>capitalize\<close>.\<close>

lemma cap_stable_ascii:
  assumes "ascii_exact cz" and "is_ascii v" and "str_strip v \<noteq> []"
  shows "cap_stable cz (str_strip v)"
proof -
  let ?t = "str_strip v"
  obtain c cs where t: "?t = c # cs" using assms(3) by (cases ?t) auto
  have at: "is_ascii ?t" using assms(2) by (rule is_ascii_strip)
  from strip_shape[of v] t have h: "\<not> is_space c" and l: "\<not> is_space (last (c # cs))" by auto
  have cap: "str_capitalize cz ?t = ascii_upper c # map ascii_lower cs"
    using ascii_exactD(3)[OF assms(1) at] by (simp add: ascii_capitalize_def t)
  have ac: "is_ascii (ascii_upper c # map ascii_lower cs)"
    using is_ascii_capitalize[OF at] by (simp add: ascii_capitalize_def t)
  have "\<not> is_space (last (ascii_upper c # map ascii_lower cs))"
    using l by (cases "cs = []") (simp_all add: is_space_ascii_upper is_space_ascii_lower last_map)
  then have 1: "str_strip (str_capitalize cz ?t) = str_capitalize cz ?t"
    unfolding cap using h by (intro strip_fix) (simp add: is_space_ascii_upper)
  have 2: "str_lower cz (str_capitalize cz ?t) = str_lower cz ?t"
    unfolding cap ascii_exactD(2)[OF assms(1) ac] ascii_exactD(2)[OF assms(1) at]
    by (simp add: t lower_upper_ascii lower_lower_ascii)
  have 3: "str_capitalize cz (str_capitalize cz ?t) = str_capitalize cz ?t"
    unfolding cap ascii_exactD(3)[OF assms(1) ac]
    by (simp add: ascii_capitalize_def upper_upper_ascii lower_lower_ascii)
  have 4: "str_capitalize cz ?t \<noteq> []" by (simp add: cap)
  from 1 2 3 4 show ?thesis by (simp add: cap_stable_def)
qed

lemma norm_type_idem:
  assumes "ascii_exact cz" and "str_strip v \<noteq> []"
    and "str_lower cz (str_strip v) \<in> fst ` set TYPE_ALIASES \<or> cap_stable cz (str_strip v)"
  shows "renorm (norm_type cz) (norm_type cz v) = norm_type cz v"
proof -
  from assms(2) have vne: "v \<noteq> []" by (auto simp: str_strip_def)
  show ?thesis
  proof (cases "map_of TYPE_ALIASES (str_lower cz (str_strip v))")
    case None
    then have "str_lower cz (str_strip v) \<notin> fst ` set TYPE_ALIASES"
      by (simp add: map_of_eq_None_iff)
    with assms(3) have st: "cap_stable cz (str_strip v)" by simp
    from None have r: "norm_type cz v = Some (str_capitalize cz (str_strip v))"
      using vne by (simp add: norm_type_def dict_get_def)
    from None st have "norm_type cz (str_capitalize cz (str_strip v))
                       = Some (str_capitalize cz (str_strip v))"
      by (simp add: norm_type_def dict_get_def cap_stable_def)
    with r show ?thesis by (simp add: renorm_def)
  next
    case (Some c)
    then have r: "norm_type cz v = Some c" using vne by (simp add: norm_type_def dict_get_def)
    from Some have "c \<in> {py ''BUG'', py ''Feature'', py ''Enhancement''}" by (rule type_range)
    then have "norm_type cz c = Some c" using type_canon[OF assms(1)] by auto
    with r show ?thesis by (simp add: renorm_def)
  qed
qed

section \<open>Alias normaliser: the properties\<close>

text \<open>
  C6, as the code has it, for Python's string methods whatever they are. For a non-empty
  input, the trimmed and lower-cased input decides: \<^verbatim>\<open>bug\<close> and its CJK synonym give \<^verbatim>\<open>BUG\<close>;
  \<^verbatim>\<open>feature\<close> and its synonym give \<^verbatim>\<open>Feature\<close>; \<^verbatim>\<open>enhancement\<close>, \<^verbatim>\<open>improvement\<close> and their synonym
  give \<^verbatim>\<open>Enhancement\<close>, whatever the case and the surrounding whitespace of the input. Any
  other input gives the trimmed input through \<^verbatim>\<open>str.capitalize()\<close>, which capitalises the
  first character and lower-cases every other character; on ASCII input that is the first
  character upper-cased and the others lower-cased letter by letter.
\<close>

theorem norm_type_cases:
  assumes "v \<noteq> []"
  shows "(str_lower cz (str_strip v) \<in> {py ''bug'', t_defect} \<longrightarrow>
            norm_type cz v = Some (py ''BUG'')) \<and>
         (str_lower cz (str_strip v) \<in> {py ''feature'', t_new_feature} \<longrightarrow>
            norm_type cz v = Some (py ''Feature'')) \<and>
         (str_lower cz (str_strip v) \<in> {py ''enhancement'', py ''improvement'', t_optimise} \<longrightarrow>
            norm_type cz v = Some (py ''Enhancement'')) \<and>
         (str_lower cz (str_strip v) \<notin> fst ` set TYPE_ALIASES \<longrightarrow>
            norm_type cz v = Some (str_capitalize cz (str_strip v))) \<and>
         (ascii_exact cz \<and> is_ascii v \<longrightarrow>
            str_lower cz (str_strip v) = map ascii_lower (str_strip v) \<and>
            str_capitalize cz (str_strip v) = ascii_capitalize (str_strip v))"
proof (intro conjI impI)
  assume "str_lower cz (str_strip v) \<in> {py ''bug'', t_defect}"
  then show "norm_type cz v = Some (py ''BUG'')"
    using assms
    by (auto simp: norm_type_def dict_get_def TYPE_ALIASES_def py_def t_defect_def)
next
  assume "str_lower cz (str_strip v) \<in> {py ''feature'', t_new_feature}"
  then show "norm_type cz v = Some (py ''Feature'')"
    using assms
    by (auto simp: norm_type_def dict_get_def TYPE_ALIASES_def py_def t_defect_def
        t_new_feature_def)
next
  assume "str_lower cz (str_strip v) \<in> {py ''enhancement'', py ''improvement'', t_optimise}"
  then show "norm_type cz v = Some (py ''Enhancement'')"
    using assms
    by (auto simp: norm_type_def dict_get_def TYPE_ALIASES_def py_def t_defect_def
        t_new_feature_def t_optimise_def)
next
  assume "str_lower cz (str_strip v) \<notin> fst ` set TYPE_ALIASES"
  then have "map_of TYPE_ALIASES (str_lower cz (str_strip v)) = None"
    by (simp add: map_of_eq_None_iff)
  then show "norm_type cz v = Some (str_capitalize cz (str_strip v))"
    using assms by (simp add: norm_type_def dict_get_def)
next
  assume a: "ascii_exact cz \<and> is_ascii v"
  then have "is_ascii (str_strip v)" by (simp add: is_ascii_strip)
  with a show "str_lower cz (str_strip v) = map ascii_lower (str_strip v)"
    and "str_capitalize cz (str_strip v) = ascii_capitalize (str_strip v)"
    by (simp_all add: ascii_exactD)
qed

text \<open>
  The theorem at five inputs, with the methods of Python on text below U+0180:
  \<^verbatim>\<open>" BuG "\<close>, the CJK synonym of \<^verbatim>\<open>feature\<close> after a space, \<^verbatim>\<open>"IMPROVEMENT"\<close>, the unknown
  token \<^verbatim>\<open>" fooBar"\<close>, and \<^verbatim>\<open>CLAIR\<close> after U+00E9, which gives \<^verbatim>\<open>clair\<close> after U+00C9.
\<close>

theorem norm_type_cases_witness:
  "norm_type latin_casing (py '' BuG '') = Some (py ''BUG'') \<and>
   norm_type latin_casing (32 # t_new_feature) = Some (py ''Feature'') \<and>
   norm_type latin_casing (py ''IMPROVEMENT'') = Some (py ''Enhancement'') \<and>
   norm_type latin_casing (py '' fooBar'') = Some (py ''Foobar'') \<and>
   norm_type latin_casing (233 # py ''CLAIR'') = Some (201 # py ''clair'')"
proof -
  have a: "py '' BuG '' \<noteq> []" "32 # t_new_feature \<noteq> []" "py ''IMPROVEMENT'' \<noteq> []"
    "py '' fooBar'' \<noteq> []" "233 # py ''CLAIR'' \<noteq> []"
    by (simp_all add: py_def)
  have b: "str_lower latin_casing (str_strip (py '' BuG '')) = py ''bug''"
    "str_lower latin_casing (str_strip (32 # t_new_feature)) = t_new_feature"
    "str_lower latin_casing (str_strip (py ''IMPROVEMENT'')) = py ''improvement''"
    "str_lower latin_casing (str_strip (py '' fooBar'')) \<notin> fst ` set TYPE_ALIASES"
    "str_lower latin_casing (str_strip (233 # py ''CLAIR'')) \<notin> fst ` set TYPE_ALIASES"
    by (simp_all add: str_defs)
  have c: "str_capitalize latin_casing (str_strip (py '' fooBar'')) = py ''Foobar''"
    "str_capitalize latin_casing (str_strip (233 # py ''CLAIR'')) = 201 # py ''clair''"
    by (simp_all add: str_defs)
  from norm_type_cases[OF a(1), of latin_casing] norm_type_cases[OF a(2), of latin_casing]
    norm_type_cases[OF a(3), of latin_casing] norm_type_cases[OF a(4), of latin_casing]
    norm_type_cases[OF a(5), of latin_casing] b c
  show ?thesis by simp
qed

text \<open>
  C6 as the specification words it fails: the input \<^verbatim>\<open>"fooBar"\<close> is not empty and is no
  alias, and the result is \<^verbatim>\<open>"Foobar"\<close>, not the input with only its first character
  capitalised (\<^verbatim>\<open>"FooBar"\<close>).
\<close>

theorem norm_type_cases_counterexample:
  "py ''fooBar'' \<noteq> [] \<and>
   map_of TYPE_ALIASES (str_lower latin_casing (str_strip (py ''fooBar''))) = None \<and>
   norm_type latin_casing (py ''fooBar'') = Some (py ''Foobar'') \<and>
   norm_type latin_casing (py ''fooBar'') \<noteq> Some (py ''FooBar'')"
  by (simp add: norm_type_def str_defs)

text \<open>
  C8, as the code has it, for string methods that do on ASCII text what Python's do. On
  every input that is empty or has a character that is not whitespace, \<open>norm_pri\<close> is
  idempotent: normalising the result gives the result again. \<open>norm_type\<close> is idempotent on
  every such input that is an alias, or that \<^verbatim>\<open>capitalize\<close> treats as it treats ASCII text,
  and so on every such ASCII input. The canonical values \<^verbatim>\<open>P0\<close> to \<^verbatim>\<open>P3\<close> and \<^verbatim>\<open>BUG\<close>,
  \<^verbatim>\<open>Feature\<close>, \<^verbatim>\<open>Enhancement\<close> are fixed points.
\<close>

theorem norm_idempotent:
  assumes "ascii_exact cz" and "v = [] \<or> str_strip v \<noteq> []"
  shows "renorm (norm_pri cz) (norm_pri cz v) = norm_pri cz v \<and>
         (str_lower cz (str_strip v) \<in> fst ` set TYPE_ALIASES \<or> cap_stable cz (str_strip v) \<or>
          is_ascii v \<longrightarrow>
            renorm (norm_type cz) (norm_type cz v) = norm_type cz v) \<and>
         (\<forall>c \<in> {py ''P0'', py ''P1'', py ''P2'', py ''P3''}. norm_pri cz c = Some c) \<and>
         (\<forall>c \<in> {py ''BUG'', py ''Feature'', py ''Enhancement''}. norm_type cz c = Some c)"
proof (cases "v = []")
  case True
  then show ?thesis
    using pri_canon[OF assms(1)] type_canon[OF assms(1)]
    by (simp add: norm_pri_Nil norm_type_Nil renorm_def)
next
  case False
  with assms(2) have ne: "str_strip v \<noteq> []" by simp
  have "renorm (norm_type cz) (norm_type cz v) = norm_type cz v"
    if "str_lower cz (str_strip v) \<in> fst ` set TYPE_ALIASES \<or> cap_stable cz (str_strip v) \<or>
        is_ascii v"
  proof -
    from that cap_stable_ascii[OF assms(1) _ ne]
    have "str_lower cz (str_strip v) \<in> fst ` set TYPE_ALIASES \<or> cap_stable cz (str_strip v)"
      by blast
    with assms(1) ne show ?thesis by (rule norm_type_idem)
  qed
  then show ?thesis
    using pri_canon[OF assms(1)] type_canon[OF assms(1)] norm_pri_idem[OF assms(1) ne]
    by simp
qed

text \<open>
  The theorem with the methods of Python on text below U+0180, at the unknown tokens
  \<^verbatim>\<open>" fooBar "\<close> and \<^verbatim>\<open>" urgent "\<close>: the trimmed passthrough is a fixed point.
\<close>

theorem norm_idempotent_witness:
  "norm_type latin_casing (py '' fooBar '') = Some (py ''Foobar'') \<and>
   renorm (norm_type latin_casing) (norm_type latin_casing (py '' fooBar '')) = Some (py ''Foobar'') \<and>
   norm_pri latin_casing (py '' urgent '') = Some (py ''urgent'') \<and>
   renorm (norm_pri latin_casing) (norm_pri latin_casing (py '' urgent '')) = Some (py ''urgent'')"
proof -
  have a: "str_strip (py '' fooBar '') \<noteq> []" "str_strip (py '' urgent '') \<noteq> []"
    by (simp_all add: str_defs)
  have b: "norm_type latin_casing (py '' fooBar '') = Some (py ''Foobar'')"
    "norm_pri latin_casing (py '' urgent '') = Some (py ''urgent'')"
    by (simp_all add: norm_type_def norm_pri_def str_defs)
  have p: "is_ascii (py '' fooBar '')"
    by (simp add: str_defs)
  from a b p norm_idempotent[OF ascii_exact_latin, of "py '' fooBar ''"]
    norm_idempotent[OF ascii_exact_latin, of "py '' urgent ''"]
  show ?thesis by simp
qed

text \<open>
  C8 for every input fails twice. On the input of one space both normalisers return the
  empty string, and the empty string normalises to \<^verbatim>\<open>None\<close>. And \<open>norm_type\<close> is not
  idempotent on every other input: \<^verbatim>\<open>improvement\<close> written with a dotless i is no alias and
  is capitalised to \<^verbatim>\<open>Improvement\<close>, which is an alias and normalises to \<^verbatim>\<open>Enhancement\<close>.
\<close>

theorem norm_idempotent_counterexample:
  "norm_pri latin_casing (py '' '') = Some [] \<and>
   renorm (norm_pri latin_casing) (norm_pri latin_casing (py '' '')) = None \<and>
   norm_type latin_casing (py '' '') = Some [] \<and>
   renorm (norm_type latin_casing) (norm_type latin_casing (py '' '')) = None \<and>
   str_strip dotless_improvement \<noteq> [] \<and>
   norm_type latin_casing dotless_improvement = Some (py ''Improvement'') \<and>
   renorm (norm_type latin_casing) (norm_type latin_casing dotless_improvement)
     = Some (py ''Enhancement'')"
  by (simp add: norm_pri_def norm_type_def renorm_def dotless_improvement_def str_defs)

section \<open>Markdown section extractor: the properties\<close>





subsection \<open>The scan of a document made of well-formed sections\<close>































section \<open>Field builder: the properties\<close>

lemma dom_keep_FN: "dom (keep_FN f) \<subseteq> set FN"
  by (auto simp: keep_FN_def split: if_splits)

lemma keep_FN_in: "k \<in> set FN \<Longrightarrow> keep_FN f k = f k"
  by (simp add: keep_FN_def)

lemma keep_FN_id:
  assumes "dom f \<subseteq> set FN"
  shows "keep_FN f = f"
proof (rule ext)
  fix k
  show "keep_FN f k = f k"
  proof (cases "k \<in> set FN")
    case True
    then show ?thesis by (simp add: keep_FN_def)
  next
    case False
    with assms have "f k = None" by blast
    with False show ?thesis by (simp add: keep_FN_def)
  qed
qed

lemma put_if_apply:
  "put_if k x f k' =
     (if k' = k \<and> x \<noteq> None \<and> x \<noteq> Some [] then map_option JStr x else f k')"
  by (cases x) (auto simp: put_if_def)

text \<open>What \<open>build_from_issue\<close> returns when it returns.\<close>

lemma build_from_issue_Inr:
  assumes "build_from_issue cz evt = Inr f"
  obtains issue md where
    "f = keep_FN
          (put_if k_bug_src (Some (str_strip (sget md k_bug_src)))
            (put_if k_type (norm_type cz (sget md k_type))
              (put_if k_pri (norm_pri cz (sget md k_pri))
                (if truthy (dget issue (py ''html_url''))
                 then [k_title \<mapsto>
                         (if str_strip (sget md k_title) \<noteq> []
                          then JStr (str_strip (sget md k_title))
                          else py_or (dget issue (py ''title'')) (JStr [])),
                       k_url \<mapsto> dget issue (py ''html_url'')]
                 else [k_title \<mapsto>
                         (if str_strip (sget md k_title) \<noteq> []
                          then JStr (str_strip (sget md k_title))
                          else py_or (dget issue (py ''title'')) (JStr []))]))))"
  using assms unfolding build_from_issue_def Let_def
  by (auto split: sum.splits json.splits)

lemma build_evt1: "build_from_issue latin_casing evt1 = Inr out1"
proof -
  have "build_from_issue latin_casing evt1 = Inr (keep_FN out1)"
    by (simp add: build_from_issue_def evt1_def body1_def out1_def parse_md_def store_match_def
        sget_def put_if_def py_or_def dget_def norm_pri_def norm_type_def re_defs str_defs
        key_defs)
  moreover have "keep_FN out1 = out1"
    by (rule keep_FN_id) (simp add: out1_def FN_def)
  ultimately show ?thesis by simp
qed

lemma build_empty_evt: "build_from_issue latin_casing (JObj []) = Inr [k_title \<mapsto> JStr []]"
proof -
  have "build_from_issue latin_casing (JObj []) = Inr (keep_FN [k_title \<mapsto> JStr []])"
    by (simp add: build_from_issue_def py_or_def dget_def parse_md_def sget_def put_if_def
        norm_pri_def norm_type_def strip_Nil)
  moreover have "keep_FN [k_title \<mapsto> JStr []] = [k_title \<mapsto> JStr []]"
    by (rule keep_FN_id) (simp add: FN_def)
  ultimately show ?thesis by simp
qed

text \<open>
  C4. Whenever \<open>build_from_issue\<close> returns a field set, and for every input of
  \<open>build_from_inputs\<close>, the keys of the field set are among the five field names of \<open>FN\<close>:
  title, \<^verbatim>\<open>IssueURL\<close>, priority, requirement type and bug source.
\<close>

theorem builder_keys_allowed:
  "(build_from_issue cz evt = Inr f \<longrightarrow> dom f \<subseteq> {k_title, k_url, k_pri, k_type, k_bug_src}) \<and>
   dom (build_from_inputs cz inputs issue_url) \<subseteq> {k_title, k_url, k_pri, k_type, k_bug_src}"
proof
  have FN: "set FN = {k_title, k_url, k_pri, k_type, k_bug_src}"
    by (simp add: FN_def)
  show "build_from_issue cz evt = Inr f \<longrightarrow> dom f \<subseteq> {k_title, k_url, k_pri, k_type, k_bug_src}"
  proof
    assume "build_from_issue cz evt = Inr f"
    then obtain g where "f = keep_FN g" by (rule build_from_issue_Inr)
    then show "dom f \<subseteq> {k_title, k_url, k_pri, k_type, k_bug_src}"
      using dom_keep_FN[of g] by (simp add: FN)
  qed
  show "dom (build_from_inputs cz inputs issue_url) \<subseteq> {k_title, k_url, k_pri, k_type, k_bug_src}"
    using dom_keep_FN by (simp add: build_from_inputs_def Let_def FN)
qed

text \<open>
  The theorem at the event with the three-section body, whose field set holds the title
  \<^verbatim>\<open>Login crash\<close>, the URL, the priority \<^verbatim>\<open>P1\<close> and the type \<^verbatim>\<open>BUG\<close>.
\<close>

theorem builder_keys_allowed_witness:
  "build_from_issue latin_casing evt1 = Inr out1 \<and> dom out1 \<subseteq> {k_title, k_url, k_pri, k_type, k_bug_src}"
  using builder_keys_allowed[of latin_casing evt1 out1] build_evt1 by simp

text \<open>
  C10. In both modes the title key is in the field set, and the three optional keys never
  hold the empty string: they are left out instead.
\<close>

theorem title_always_present:
  "(build_from_issue cz evt = Inr f \<longrightarrow>
      k_title \<in> dom f \<and> (\<forall>k \<in> {k_pri, k_type, k_bug_src}. f k \<noteq> Some (JStr []))) \<and>
   k_title \<in> dom (build_from_inputs cz inputs issue_url) \<and>
   (\<forall>k \<in> {k_pri, k_type, k_bug_src}. build_from_inputs cz inputs issue_url k \<noteq> Some (JStr []))"
proof (intro conjI impI ballI)
  assume b: "build_from_issue cz evt = Inr f"
  from b show "k_title \<in> dom f"
    using keys_distinct
    by (elim build_from_issue_Inr) (simp add: keep_FN_in title_in_FN put_if_apply dom_def)
  fix k
  assume "k \<in> {k_pri, k_type, k_bug_src}"
  then have k: "k \<in> set FN" "k \<noteq> k_title" "k \<noteq> k_url" using optional_in_FN by blast+
  from b show "f k \<noteq> Some (JStr [])"
    using k by (elim build_from_issue_Inr) (auto simp: keep_FN_in put_if_apply)
next
  show "k_title \<in> dom (build_from_inputs cz inputs issue_url)"
    using keys_distinct
    by (simp add: build_from_inputs_def Let_def keep_FN_in title_in_FN put_if_apply dom_def)
next
  fix k
  assume "k \<in> {k_pri, k_type, k_bug_src}"
  then have k: "k \<in> set FN" "k \<noteq> k_title" "k \<noteq> k_url" using optional_in_FN by blast+
  then show "build_from_inputs cz inputs issue_url k \<noteq> Some (JStr [])"
    by (auto simp: build_from_inputs_def Let_def keep_FN_in put_if_apply)
qed

text \<open>
  The theorem at the empty event \<^verbatim>\<open>{}\<close>: the title is present and is the empty string.
\<close>

theorem title_always_present_witness:
  "build_from_issue latin_casing (JObj []) = Inr [k_title \<mapsto> JStr []] \<and>
   k_title \<in> dom [k_title \<mapsto> JStr []] \<and>
   [k_title \<mapsto> JStr []] k_title = Some (JStr [])"
  using title_always_present[of latin_casing "JObj []" "[k_title \<mapsto> JStr []]" Map.empty "[]"]
    build_empty_evt
  by simp

text \<open>
  C7, as the code has it. If the input map has only keys of \<open>FN\<close>, among them the title,
  if its values are already what the builder makes of them (title and bug source
  non-empty and trimmed, priority a fixed point of \<open>norm_pri\<close>, type a fixed point of
  \<open>norm_type\<close>), and if the URL is non-empty and trimmed, then the field set is the input
  map with the URL stored under \<^verbatim>\<open>IssueURL\<close>. This holds for Python's string methods whatever
  they are.
\<close>

theorem build_from_inputs_roundtrip:
  assumes keys: "dom inputs \<subseteq> set FN"
    and title: "inputs k_title = Some t" "t \<noteq> []" "str_strip t = t"
    and pri: "\<forall>p. inputs k_pri = Some p \<longrightarrow> norm_pri cz p = Some p"
    and tyfix: "\<forall>y. inputs k_type = Some y \<longrightarrow> norm_type cz y = Some y"
    and bug: "\<forall>b. inputs k_bug_src = Some b \<longrightarrow> b \<noteq> [] \<and> str_strip b = b"
    and url: "issue_url \<noteq> []" "str_strip issue_url = issue_url"
  shows "build_from_inputs cz inputs issue_url
           = (map_option JStr \<circ> inputs)(k_url \<mapsto> JStr issue_url)"
proof (rule ext)
  fix k
  have d: "k_title \<noteq> k_url" "k_title \<noteq> k_pri" "k_title \<noteq> k_type" "k_title \<noteq> k_bug_src"
    "k_url \<noteq> k_pri" "k_url \<noteq> k_type" "k_url \<noteq> k_bug_src" "k_pri \<noteq> k_type"
    "k_pri \<noteq> k_bug_src" "k_type \<noteq> k_bug_src"
    using keys_distinct by auto
  note dd = d d[symmetric]
  have P: "put_if k_pri (norm_pri cz (sget inputs k_pri)) f k_pri = map_option JStr (inputs k_pri)"
    if "f k_pri = None" for f
  proof (cases "inputs k_pri")
    case None
    then show ?thesis using that by (simp add: sget_def norm_pri_Nil put_if_def)
  next
    case (Some p)
    with pri have n: "norm_pri cz p = Some p" by simp
    then have "p \<noteq> []" using norm_pri_Nil by auto
    with Some n show ?thesis by (simp add: sget_def put_if_def)
  qed
  have T: "put_if k_type (norm_type cz (sget inputs k_type)) f k_type
           = map_option JStr (inputs k_type)"
    if "f k_type = None" for f
  proof (cases "inputs k_type")
    case None
    then show ?thesis using that by (simp add: sget_def norm_type_Nil put_if_def)
  next
    case (Some y)
    with tyfix have n: "norm_type cz y = Some y" by simp
    then have "y \<noteq> []" using norm_type_Nil by auto
    with Some n show ?thesis by (simp add: sget_def put_if_def)
  qed
  have B: "put_if k_bug_src (Some (str_strip (sget inputs k_bug_src))) f k_bug_src
           = map_option JStr (inputs k_bug_src)"
    if "f k_bug_src = None" for f
  proof (cases "inputs k_bug_src")
    case None
    then show ?thesis using that by (simp add: sget_def strip_Nil put_if_def)
  next
    case (Some b)
    with bug show ?thesis by (simp add: sget_def put_if_def)
  qed
  have other: "put_if k' x f j = f j" if "j \<noteq> k'" for j k' x f
    using that by (simp add: put_if_apply)
  let ?f2 = "[k_title \<mapsto> JStr t, k_url \<mapsto> JStr issue_url]"
  let ?f3 = "put_if k_pri (norm_pri cz (sget inputs k_pri)) ?f2"
  let ?f4 = "put_if k_type (norm_type cz (sget inputs k_type)) ?f3"
  let ?f5 = "put_if k_bug_src (Some (str_strip (sget inputs k_bug_src))) ?f4"
  have b: "build_from_inputs cz inputs issue_url = keep_FN ?f5"
    using title url by (simp add: build_from_inputs_def Let_def sget_def)
  consider "k = k_title" | "k = k_url" | "k = k_pri" | "k = k_type" | "k = k_bug_src"
    | "k \<notin> set FN"
    by (auto simp: FN_def)
  then show "build_from_inputs cz inputs issue_url k
             = ((map_option JStr \<circ> inputs)(k_url \<mapsto> JStr issue_url)) k"
  proof cases
    case 1
    then show ?thesis using dd title by (simp add: b keep_FN_in title_in_FN other)
  next
    case 2
    then show ?thesis using dd by (simp add: b keep_FN_def FN_def other)
  next
    case 3
    have "?f5 k_pri = ?f3 k_pri" using dd by (simp add: other)
    also have "\<dots> = map_option JStr (inputs k_pri)" using dd by (intro P) simp
    finally show ?thesis using 3 dd by (simp add: b keep_FN_def FN_def)
  next
    case 4
    have "?f5 k_type = ?f4 k_type" using dd by (simp add: other)
    also have "\<dots> = map_option JStr (inputs k_type)" using dd by (intro T) (simp add: other)
    finally show ?thesis using 4 dd by (simp add: b keep_FN_def FN_def)
  next
    case 5
    have "?f5 k_bug_src = map_option JStr (inputs k_bug_src)"
      using dd by (intro B) (simp add: other)
    then show ?thesis using 5 dd by (simp add: b keep_FN_def FN_def)
  next
    case 6
    then have "inputs k = None" using keys by auto
    moreover from 6 have "k \<noteq> k_url" by (auto simp: FN_def)
    ultimately show ?thesis using 6 by (simp add: b keep_FN_def)
  qed
qed

lemma inputs1_dom: "dom inputs1 \<subseteq> set FN"
  by (auto simp: inputs1_def FN_def split: if_splits)

lemma inputs1_at:
  "inputs1 k_title = Some (py ''Login crash'')" "inputs1 k_pri = Some (py ''P1'')"
  "inputs1 k_type = Some (py ''BUG'')" "inputs1 k_bug_src = Some (py ''QA'')"
  by (simp_all add: inputs1_def key_defs py_def)

text \<open>
  The theorem at the map with title \<^verbatim>\<open>Login crash\<close>, priority \<^verbatim>\<open>P1\<close>, type \<^verbatim>\<open>BUG\<close> and bug
  source \<^verbatim>\<open>QA\<close>, and the URL \<^verbatim>\<open>https://x/1\<close>.
\<close>

theorem build_from_inputs_roundtrip_witness:
  "build_from_inputs latin_casing inputs1 (py ''https://x/1'') =
     (map_option JStr \<circ> inputs1)(k_url \<mapsto> JStr (py ''https://x/1''))"
  using inputs1_dom
  by (intro build_from_inputs_roundtrip[where t = "py ''Login crash''"])
     (simp_all add: inputs1_at norm_pri_def norm_type_def str_defs)

text \<open>
  C7 as the specification words it fails: the map with the single entry priority
  \<^verbatim>\<open>high\<close> has only allow-listed keys and non-empty values. The field set holds \<^verbatim>\<open>P0\<close> under
  the priority key, where the input holds \<^verbatim>\<open>high\<close>, and the empty string under the title
  key, which the input does not have.
\<close>

theorem build_from_inputs_roundtrip_counterexample:
  "build_from_inputs latin_casing [k_pri \<mapsto> py ''high''] (py ''https://x/1'') k_pri
     = Some (JStr (py ''P0'')) \<and>
   ((map_option JStr \<circ> [k_pri \<mapsto> py ''high''])(k_url \<mapsto> JStr (py ''https://x/1''))) k_pri
     = Some (JStr (py ''high'')) \<and>
   build_from_inputs latin_casing [k_pri \<mapsto> py ''high''] (py ''https://x/1'') k_title = Some (JStr []) \<and>
   ((map_option JStr \<circ> [k_pri \<mapsto> py ''high''])(k_url \<mapsto> JStr (py ''https://x/1''))) k_title
     = None \<and>
   build_from_inputs latin_casing [k_pri \<mapsto> py ''high''] (py ''https://x/1'') \<noteq>
     (map_option JStr \<circ> [k_pri \<mapsto> py ''high''])(k_url \<mapsto> JStr (py ''https://x/1''))"
proof -
  have a: "build_from_inputs latin_casing [k_pri \<mapsto> py ''high''] (py ''https://x/1'') k_pri
           = Some (JStr (py ''P0''))"
    by (simp add: build_from_inputs_def keep_FN_def sget_def put_if_def norm_pri_def
        norm_type_def str_defs key_defs)
  have b: "((map_option JStr \<circ> [k_pri \<mapsto> py ''high''])(k_url \<mapsto> JStr (py ''https://x/1'')))
             k_pri = Some (JStr (py ''high''))"
    by (simp add: key_defs py_def)
  have c: "build_from_inputs latin_casing [k_pri \<mapsto> py ''high''] (py ''https://x/1'') k_title
           = Some (JStr [])"
    by (simp add: build_from_inputs_def keep_FN_def sget_def put_if_def norm_pri_def
        norm_type_def str_defs key_defs)
  have d: "((map_option JStr \<circ> [k_pri \<mapsto> py ''high''])(k_url \<mapsto> JStr (py ''https://x/1'')))
             k_title = None"
    by (simp add: key_defs py_def)
  from c d have "build_from_inputs latin_casing [k_pri \<mapsto> py ''high''] (py ''https://x/1'') \<noteq>
     (map_option JStr \<circ> [k_pri \<mapsto> py ''high''])(k_url \<mapsto> JStr (py ''https://x/1''))"
    by (metis option.distinct(1))
  with a b c d show ?thesis by blast
qed

section \<open>Record locator and upsert executor: the properties\<close>

lemma fst_search_record:
  "fst (search_record remote token app table iu) = [GetSearch token app table iu]"
  by (simp add: search_record_def Let_def)

lemma search_record_Inr:
  "snd (search_record remote token app table iu) = Inr r \<Longrightarrow>
   search_record remote token app table iu = ([GetSearch token app table iu], Inr r)"
  using fst_search_record[of remote token app table iu] by (simp add: prod_eq_iff)

lemma search_found: "search_record remote_found t a tb url1 = ([GetSearch t a tb url1], Inr rec1)"
  by (simp add: search_record_def remote_found_def py_or_def dget_def py_def)

lemma search_empty: "search_record remote_empty t a tb url1 = ([GetSearch t a tb url1], Inr JNull)"
  by (simp add: search_record_def remote_empty_def py_or_def dget_def py_def)

lemma fields1_url: "fields1 k_url = Some url1"
  by (simp add: fields1_def)

lemma truthy_url1: "truthy url1"
  by (simp add: url1_def py_def)

lemma truthy_rec1: "truthy rec1"
  by (simp add: rec1_def py_def)

text \<open>The requests of a run whose search returns: the search, then one write.\<close>

lemma upsert_trace:
  assumes "fields k_url = Some iu" and "truthy iu"
    and "snd (search_record remote token app table iu) = Inr r"
  shows "fst (upsert remote token app table fields) =
           [GetSearch token app table iu,
            if truthy r then PatchRecord token app table r fields
            else PostRecord token app table fields]"
  using assms(1,2) search_record_Inr[OF assms(3)] by (simp add: upsert_def Let_def)

text \<open>
  C1. Let the field set hold a truthy value (a non-empty string) under \<^verbatim>\<open>IssueURL\<close> and let
  the search return. If it returns a record id (a truthy value), the run issues exactly one
  PATCH, for that id, and no POST; if it returns none, the run issues exactly one POST
  and no PATCH.
\<close>

theorem upsert_one_write:
  assumes "fields k_url = Some iu" and "truthy iu"
    and "snd (search_record remote token app table iu) = Inr r"
  shows "(truthy r \<longrightarrow>
            filter is_patch (fst (upsert remote token app table fields)) =
              [PatchRecord token app table r fields] \<and>
            filter is_post (fst (upsert remote token app table fields)) = []) \<and>
         (\<not> truthy r \<longrightarrow>
            filter is_post (fst (upsert remote token app table fields)) =
              [PostRecord token app table fields] \<and>
            filter is_patch (fst (upsert remote token app table fields)) = [])"
  using assms upsert_trace[of fields iu remote token app table r] by simp

text \<open>The theorem at a store that finds the record and at a store that finds none.\<close>

theorem upsert_one_write_witness:
  "filter is_patch (fst (upsert remote_found [] [] [] fields1))
     = [PatchRecord [] [] [] rec1 fields1] \<and>
   filter is_post (fst (upsert remote_found [] [] [] fields1)) = [] \<and>
   filter is_post (fst (upsert remote_empty [] [] [] fields1)) = [PostRecord [] [] [] fields1] \<and>
   filter is_patch (fst (upsert remote_empty [] [] [] fields1)) = []"
  using upsert_one_write[of fields1 url1 remote_found "[]" "[]" "[]" rec1]
    upsert_one_write[of fields1 url1 remote_empty "[]" "[]" "[]" JNull]
  by (simp add: fields1_url truthy_url1 truthy_rec1 search_found search_empty)

text \<open>
  C2. A field set without the \<^verbatim>\<open>IssueURL\<close> key makes \<open>upsert\<close> raise \<^verbatim>\<open>ValueError\<close> with no
  request issued.
\<close>

theorem upsert_key_missing:
  assumes "fields k_url = None"
  shows "upsert remote token app table fields = ([], Inl ValueError)"
  using assms by (simp add: upsert_def)

text \<open>The theorem at a field set that holds a title only.\<close>

theorem upsert_key_missing_witness:
  "upsert remote_found [] [] [] (Map.empty(k_title \<mapsto> JStr (py ''Login crash'')))
     = ([], Inl ValueError)"
  by (rule upsert_key_missing) (simp add: key_defs py_def)

text \<open>
  C3 asks that a search response with a non-zero status code is a query failure and that
  no write follows. \<open>search_record\<close> never reads the status code: on the response
  \<^verbatim>\<open>{"code": 1254302, "msg": "no permission"}\<close> it returns \<^verbatim>\<open>None\<close>, and \<open>upsert\<close> goes on to
  create a record.
\<close>

theorem search_ignores_status_code:
  "search_record remote_denied [] [] [] url1 = ([GetSearch [] [] [] url1], Inr JNull) \<and>
   upsert remote_denied [] [] [] fields1 =
     ([GetSearch [] [] [] url1, PostRecord [] [] [] fields1],
      Inr (JObj [(py ''code'', JInt 0)]))"
  by (simp add: upsert_def search_record_def remote_denied_def ok_reply_def py_or_def dget_def
      py_def fields1_url truthy_url1[simplified py_def])

text \<open>
  C5. Let the search return and let \<open>req\<close> be the write that follows. The run succeeds
  exactly when the response to \<open>req\<close> parses to a dict whose \<^verbatim>\<open>code\<close> is absent, \<^verbatim>\<open>None\<close>, or
  equal to 0 (\<^verbatim>\<open>False\<close> is equal to 0 in Python); it then returns the parsed response. A
  response that does not parse makes it raise \<^verbatim>\<open>RuntimeError\<close>.
\<close>

theorem upsert_validation:
  assumes "fields k_url = Some iu" and "truthy iu"
    and "snd (search_record remote token app table iu) = Inr r"
    and "req = (if truthy r then PatchRecord token app table r fields
                else PostRecord token app table fields)"
  shows "((\<exists>out. snd (upsert remote token app table fields) = Inr out) \<longleftrightarrow>
            (\<exists>d. remote req = Replied (Some (JObj d)) \<and>
                 map_of d (py ''code'')
                   \<in> {None, Some JNull, Some (JInt 0), Some (JBool False)})) \<and>
         (\<forall>out. snd (upsert remote token app table fields) = Inr out \<longrightarrow>
                 remote req = Replied (Some out)) \<and>
         (remote req = Replied None \<longrightarrow>
            snd (upsert remote token app table fields) = Inl RuntimeError)"
proof -
  have u: "snd (upsert remote token app table fields) =
      (case remote req of
         Failed \<Rightarrow> Inl RequestException
       | Replied None \<Rightarrow> Inl RuntimeError
       | Replied (Some data) \<Rightarrow>
           (case as_dict data of
              Inl e \<Rightarrow> Inl e
            | Inr d \<Rightarrow>
                if \<not> in_0_None (dget d (py ''code'')) then Inl RuntimeError else Inr data))"
    using assms(1,2,4) search_record_Inr[OF assms(3)] by (simp add: upsert_def Let_def)
  have c: "in_0_None (dget d (py ''code'')) \<longleftrightarrow>
           map_of d (py ''code'') \<in> {None, Some JNull, Some (JInt 0), Some (JBool False)}" for d
    by (cases "map_of d (py ''code'')"; cases "the (map_of d (py ''code''))")
       (auto simp: dget_def)
  show ?thesis
  proof (cases "remote req")
    case Failed
    then show ?thesis using u by simp
  next
    case (Replied b)
    show ?thesis
    proof (cases b)
      case None
      then show ?thesis using u Replied by simp
    next
      case (Some data)
      show ?thesis
      proof (cases data)
        case (JObj d)
        then show ?thesis using u Replied Some c[of d] by auto
      qed (use u Replied Some in auto)
    qed
  qed
qed

text \<open>The theorem at the store that finds the record and answers the PATCH with code 0.\<close>

theorem upsert_validation_witness:
  "(\<exists>out. snd (upsert remote_found [] [] [] fields1) = Inr out) \<and>
   remote_found (PatchRecord [] [] [] rec1 fields1)
     = Replied (Some (JObj [(py ''code'', JInt 0)]))"
  using upsert_validation[of fields1 url1 remote_found "[]" "[]" "[]" rec1
      "PatchRecord [] [] [] rec1 fields1"]
  by (simp add: fields1_url truthy_url1 truthy_rec1 search_found remote_found_def ok_reply_def)

end

